theory Spec2Isabelle
  imports Main "HOL-Library.Word"
begin

unbundle bit_operations_syntax

section \<open>Values of the host language\<close>

text \<open>
  The JavaScript values that reach \<open>lib/browser.js\<close>: the two empty values, booleans
  and references to objects (tabs, browser panes, the \<open>gBrowser\<close> container), which
  \<open>===\<close> compares by identity. \<open>truthy\<close> is the conversion that \<open>if ( x )\<close> and
  \<open>!x\<close> apply.
\<close>

datatype jsval = Undefined | Null | Bool bool | Obj nat

fun truthy :: "jsval \<Rightarrow> bool" where
  "truthy Undefined = False"
| "truthy Null = False"
| "truthy (Bool b) = b"
| "truthy (Obj _) = True"

text \<open>
  \<open>arguments[i]\<close> of a call: a parameter beyond the arguments that were passed reads
  as \<open>undefined\<close>.
\<close>

definition param :: "jsval list \<Rightarrow> nat \<Rightarrow> jsval" where
  "param args i = (if i < length args then args ! i else Undefined)"

text \<open>
  A thrown value, as far as the code looks at it: \<open>e.toString()\<close>. An XPCOM status
  code (\<open>nsresult\<close>) is an unsigned 32-bit number, and so are the progress state flags.
  A callback is a function of the caller, known here by its identity only.
\<close>

datatype exn = Exn string

fun toString :: "exn \<Rightarrow> string" where
  "toString (Exn s) = s"

type_synonym nsresult = "32 word"

type_synonym fn = nat

section \<open>The host\<close>

text \<open>
  Everything the code does to the outside is recorded, in order, in a trace: the calls on
  \<open>gBrowser\<close> (those of the \<open>try\<close> block with what the host answered: a returned
  value or a thrown exception), \<open>Cu.reportError\<close>, and the invocations of the two
  callbacks with their argument.
\<close>

datatype event =
    AddTabsProgressListener nat "exn option"
  | AddTab string "exn + jsval"
  | GetBrowserForTab jsval "exn + jsval"
  | RemoveTabsProgressListener nat
  | RemoveTab jsval
  | ReportError string
  | Call_catch_f fn exn
  | Call_finally_f fn bool

text \<open>
  The host is a parameter: the constant \<open>Ci.nsIWebProgressListener.STATE_STOP\<close>, and
  the answer it gives to each of the three calls of the \<open>try\<close> block of \<open>_show\<close>
  (\<open>Some e\<close> and \<open>Inl e\<close>: the call throws \<open>e\<close>). The two calls of \<open>close\<close>
  stand outside any \<open>try\<close> and are taken to return; \<open>Cu.reportError\<close> and the
  callbacks are taken to return as well.
\<close>

record host =
  STATE_STOP :: "32 word"
  addTabsProgressListener :: "nat \<Rightarrow> exn option"
  addTab :: "string \<Rightarrow> exn + jsval"
  getBrowserForTab :: "jsval \<Rightarrow> exn + jsval"

section \<open>Tabbed\_Browser\<close>

record Window =
  gBrowser :: jsval

record Tabbed_Browser =
  window :: Window
  tabbed_browser :: jsval
  n_requests :: int
  max_requests :: int

definition Tabbed_Browser_new :: "Window \<Rightarrow> int \<Rightarrow> Tabbed_Browser" where
  "Tabbed_Browser_new win max_req =
     \<lparr> window = win, tabbed_browser = gBrowser win, n_requests = 0, max_requests = max_req \<rparr>"

text \<open>
  A method is a function from the object to the returned value and the object
  afterwards.
\<close>

definition available :: "Tabbed_Browser \<Rightarrow> bool \<times> Tabbed_Browser" where
  "available this = (n_requests this < max_requests this, this)"

section \<open>Browser\_Tab\<close>

datatype STATE = CREATED | LOADING | DISPLAYED | ERROR | CLOSED

fun STATE_value :: "STATE \<Rightarrow> nat" where
  "STATE_value CREATED = 0"
| "STATE_value LOADING = 1"
| "STATE_value DISPLAYED = 2"
| "STATE_value ERROR = 3"
| "STATE_value CLOSED = 4"

text \<open>
  The fields of the object, in the order in which the source first assigns them
  (\<open>browser\<close> and \<open>error_code\<close> are not assigned by the constructor and read as
  \<open>undefined\<close> until \<open>_show\<close> and \<open>_progress\<close> assign them). \<open>listener\<close> is
  \<open>null\<close> or the listener object that \<open>_show\<close> created, known by the number it
  was allocated under; a callback field is \<open>None\<close> when it holds \<open>null\<close> or
  \<open>undefined\<close>. The last two fields are not in the source: \<open>trace\<close> is the record of
  the effects so far, \<open>fresh\<close> the number the next allocated listener object gets.
\<close>

record Browser_Tab =
  parent :: Tabbed_Browser
  leave_open :: jsval
  tabbed_browser' :: jsval
  tab :: jsval
  listener :: "nat option"
  finally_f :: "fn option"
  catch_f :: "fn option"
  state :: STATE
  browser :: jsval
  error_code :: "nsresult option"
  trace :: "event list"
  fresh :: nat

text \<open>
  \<open>new Browser_Tab( parent, ... )\<close>: the second argument of the function is the
  list of the arguments after \<open>parent\<close>, so \<open>arguments.length\<close> is one more than its
  length.
\<close>

definition Browser_Tab_new :: "Tabbed_Browser \<Rightarrow> jsval list \<Rightarrow> Browser_Tab" where
  "Browser_Tab_new par rest =
     \<lparr> parent = par,
       leave_open = (if 1 + length rest \<ge> 2 then param rest 0 else Bool True),
       tabbed_browser' = tabbed_browser par,
       tab = Null,
       listener = None,
       finally_f = None,
       catch_f = None,
       state = CREATED,
       browser = Undefined,
       error_code = None,
       trace = [],
       fresh = 0 \<rparr>"

text \<open>
  \<open>make_tab\<close> always passes two arguments on: \<open>leave_open\<close> is its own first
  argument, \<open>undefined\<close> when it was called with none.
\<close>

definition make_tab :: "Tabbed_Browser \<Rightarrow> jsval list \<Rightarrow> Browser_Tab" where
  "make_tab this args = Browser_Tab_new this [param args 0]"

definition in_initial_state :: "Browser_Tab \<Rightarrow> bool" where
  "in_initial_state this = (state this = CREATED)"

definition in_final_state :: "Browser_Tab \<Rightarrow> bool" where
  "in_final_state this = (STATE_value (state this) \<ge> STATE_value DISPLAYED)"

definition emit :: "event list \<Rightarrow> Browser_Tab \<Rightarrow> Browser_Tab" where
  "emit es this = this\<lparr> trace := trace this @ es \<rparr>"

definition close :: "Browser_Tab \<Rightarrow> Browser_Tab" where
  "close this =
     (if state this = CLOSED then this
      else
        let this1 = (case listener this of
                       Some l \<Rightarrow> (emit [RemoveTabsProgressListener l] this)\<lparr> listener := None \<rparr>
                     | None \<Rightarrow> this);
            this2 = (if truthy (tab this1)
                     then (if \<not> truthy (leave_open this1)
                           then emit [RemoveTab (tab this1)] this1
                           else this1)\<lparr> tab := Null \<rparr>
                     else this1)
        in this2\<lparr> state := CLOSED \<rparr>)"

text \<open>
  The \<open>try\<close> block of \<open>_show\<close>: the exception that left it, if any, and the object
  as the statements before the throw left it.
\<close>

definition show_try :: "host \<Rightarrow> string \<Rightarrow> Browser_Tab \<Rightarrow> exn option \<times> Browser_Tab" where
  "show_try h target this =
     (let l = fresh this;
          this1 = this\<lparr> listener := Some l, fresh := Suc l \<rparr>;
          r1 = addTabsProgressListener h l;
          this2 = emit [AddTabsProgressListener l r1] this1
      in case r1 of
           Some e \<Rightarrow> (Some e, this2)
         | None \<Rightarrow>
             (let r2 = addTab h target;
                  this3 = emit [AddTab target r2] this2
              in case r2 of
                   Inl e \<Rightarrow> (Some e, this3)
                 | Inr t \<Rightarrow>
                     (let this4 = this3\<lparr> tab := t \<rparr>;
                          r3 = getBrowserForTab h t;
                          this5 = emit [GetBrowserForTab t r3] this4
                      in case r3 of
                           Inl e \<Rightarrow> (Some e, this5)
                         | Inr b \<Rightarrow> (None, this5\<lparr> browser := b \<rparr>))))"

definition show_catch :: "exn \<Rightarrow> Browser_Tab \<Rightarrow> Browser_Tab" where
  "show_catch e this =
     (let this1 = this\<lparr> state := ERROR \<rparr>;
          this2 = emit [ReportError (''Unexpected exception in Browser_Tab.show(): '' @ toString e)] this1;
          this3 = (case catch_f this2 of Some c \<Rightarrow> emit [Call_catch_f c e] this2 | None \<Rightarrow> this2)
      in case finally_f this3 of Some f \<Rightarrow> emit [Call_finally_f f False] this3 | None \<Rightarrow> this3)"

text \<open>
  \<open>_show\<close> and the \<open>go\<close> of the action that \<open>load\<close> returns: the first component
  is the exception that reaches the caller, if any.
\<close>

definition show_tab :: "host \<Rightarrow> string \<Rightarrow> Browser_Tab \<Rightarrow> exn option \<times> Browser_Tab" where
  "show_tab h target this =
     (case show_try h target this of
        (None, this1) \<Rightarrow> (None, this1)
      | (Some e, this1) \<Rightarrow> (None, show_catch e this1))"

record action =
  go :: "fn option \<Rightarrow> fn option \<Rightarrow> host \<Rightarrow> Browser_Tab \<Rightarrow> exn option \<times> Browser_Tab"

definition load :: "string \<Rightarrow> action" where
  "load target =
     \<lparr> go = (\<lambda>fin cat h this. show_tab h target (this\<lparr> finally_f := fin, catch_f := cat \<rparr>)) \<rparr>"

definition progress ::
  "host \<Rightarrow> jsval \<Rightarrow> jsval \<Rightarrow> jsval \<Rightarrow> 32 word \<Rightarrow> nsresult \<Rightarrow> Browser_Tab \<Rightarrow> Browser_Tab" where
  "progress h brw controller browse_request flags stop_status this =
     (if in_final_state this then this
      else if browser this \<noteq> brw then this
      else if flags AND STATE_STOP h = 0 then this
      else
        let success = (stop_status = 0);
            this1 = (if success then this\<lparr> state := DISPLAYED \<rparr>
                     else this\<lparr> state := ERROR, error_code := Some stop_status \<rparr>)
        in case finally_f this1 of
             Some f \<Rightarrow> emit [Call_finally_f f success] this1
           | None \<Rightarrow> this1)"

section \<open>Runs\<close>

text \<open>
  What can happen to a session once its load was started: the host delivers a progress
  notification to the listener, or the owner calls \<open>close\<close>.
\<close>

datatype op = Progress jsval jsval jsval "32 word" nsresult | Close

fun step :: "host \<Rightarrow> op \<Rightarrow> Browser_Tab \<Rightarrow> Browser_Tab" where
  "step h (Progress b c r fl st) this = progress h b c r fl st this"
| "step h Close this = close this"

fun run :: "host \<Rightarrow> op list \<Rightarrow> Browser_Tab \<Rightarrow> Browser_Tab" where
  "run h [] this = this"
| "run h (x # xs) this = run h xs (step h x this)"

fun is_finally :: "event \<Rightarrow> bool" where
  "is_finally (Call_finally_f _ _) = True"
| "is_finally _ = False"

fun is_callback :: "event \<Rightarrow> bool" where
  "is_callback (Call_finally_f _ _) = True"
| "is_callback (Call_catch_f _ _) = True"
| "is_callback _ = False"

fun is_removeTab :: "event \<Rightarrow> bool" where
  "is_removeTab (RemoveTab _) = True"
| "is_removeTab _ = False"

fun is_removeListener :: "event \<Rightarrow> bool" where
  "is_removeListener (RemoveTabsProgressListener _) = True"
| "is_removeListener _ = False"

definition count :: "(event \<Rightarrow> bool) \<Rightarrow> Browser_Tab \<Rightarrow> nat" where
  "count p this = length (filter p (trace this))"

text \<open>
  Modelled from the spec: the host's registry of progress subscriptions
  (\<open>subscribeProgress\<close> and \<open>unsubscribeProgress\<close> of the host interface), which is
  code of the browser, not of this repository. It is read off the trace: a listener is
  registered once a call that adds it has returned, until a call removes it.
\<close>

fun subscribe :: "event \<Rightarrow> nat list \<Rightarrow> nat list" where
  "subscribe (AddTabsProgressListener l None) ls = l # ls"
| "subscribe (RemoveTabsProgressListener l) ls = removeAll l ls"
| "subscribe _ ls = ls"

definition subscribed :: "event list \<Rightarrow> nat list" where
  "subscribed es = fold subscribe es []"

section \<open>Scenarios\<close>

text \<open>
  The hosts and the gate of the scenarios of the specification: a host whose calls all
  return (tab 1, with browser pane 2), a host whose \<open>addTab\<close> throws, and a gate of
  capacity 1. \<open>STATE_STOP\<close> is the value the browser gives it.
\<close>

definition host_ok :: host where
  "host_ok =
     \<lparr> STATE_STOP = 0x10,
       addTabsProgressListener = (\<lambda>l. None),
       addTab = (\<lambda>target. Inr (Obj 1)),
       getBrowserForTab = (\<lambda>t. Inr (Obj 2)) \<rparr>"

definition host_addTab_throws :: host where
  "host_addTab_throws =
     \<lparr> STATE_STOP = 0x10,
       addTabsProgressListener = (\<lambda>l. None),
       addTab = (\<lambda>target. Inl (Exn ''NS_ERROR_MALFORMED_URI'')),
       getBrowserForTab = (\<lambda>t. Inr (Obj 2)) \<rparr>"

definition gate1 :: Tabbed_Browser where
  "gate1 = Tabbed_Browser_new \<lparr> gBrowser = Obj 0 \<rparr> 1"

text \<open>
  The notifications and sessions of the scenarios: a stop notification for pane 2 with the
  success status and one with the failure status \<open>0x804B0002\<close>; the session that
  \<open>make_tab\<close> creates without an argument, after its load was started on each of the
  two hosts; and the started session after the successful stop notification.
\<close>

definition stop_ok :: op where
  "stop_ok = Progress (Obj 2) Null Null 0x10 0"

definition stop_fail :: op where
  "stop_fail = Progress (Obj 2) Null Null 0x10 0x804B0002"

definition session_started :: Browser_Tab where
  "session_started = snd (go (load ''https://example.test'') (Some 1) (Some 2) host_ok (make_tab gate1 []))"

definition session_displayed :: Browser_Tab where
  "session_displayed = step host_ok stop_ok session_started"

definition session_setup_failed :: Browser_Tab where
  "session_setup_failed =
     snd (go (load ''https://example.test'') (Some 1) (Some 2) host_addTab_throws (make_tab gate1 []))"

section \<open>The admission gate\<close>

text \<open>
  C9. \<open>available\<close> returns true exactly when \<open>n_requests < max_requests\<close>, so false
  when the two are equal, also at capacity 1, and it changes no field of the gate.
\<close>

theorem available_spec:
  "fst (available g) = (n_requests g < max_requests g)
   \<and> (n_requests g = max_requests g \<longrightarrow> \<not> fst (available g))
   \<and> snd (available g) = g"
  by (simp add: available_def)

theorem available_spec_witness:
  "n_requests (gate1 \<lparr> n_requests := 1 \<rparr>) = 1
   \<and> max_requests (gate1 \<lparr> n_requests := 1 \<rparr>) = 1
   \<and> \<not> fst (available (gate1 \<lparr> n_requests := 1 \<rparr>))
   \<and> fst (available (gate1))
   \<and> snd (available (gate1)) = gate1"
  using available_spec [of "gate1 \<lparr> n_requests := 1 \<rparr>"]
        available_spec [of "gate1"]
  by (simp add: gate1_def Tabbed_Browser_new_def)

section \<open>Evaluating the definitions\<close>

text \<open>
  The definitions that a proof about \<open>go\<close> or about a scenario unfolds, and the
  scenario sessions written out.
\<close>

lemmas go_defs = load_def show_tab_def show_try_def show_catch_def Let_def emit_def

lemmas scenario_defs = stop_ok_def session_started_def session_displayed_def host_ok_def
  host_addTab_throws_def gate1_def Tabbed_Browser_new_def make_tab_def Browser_Tab_new_def param_def

lemma session_started_eq:
  "session_started =
     \<lparr> parent = gate1, leave_open = Undefined, tabbed_browser' = Obj 0, tab = Obj 1,
       listener = Some 0, finally_f = Some 1, catch_f = Some 2, state = CREATED,
       browser = Obj 2, error_code = None,
       trace = [AddTabsProgressListener 0 None, AddTab ''https://example.test'' (Inr (Obj 1)),
                GetBrowserForTab (Obj 1) (Inr (Obj 2))],
       fresh = 1 \<rparr>"
  by (simp add: scenario_defs go_defs)

lemma session_displayed_eq:
  "session_displayed = session_started \<lparr> state := DISPLAYED, trace := trace session_started @ [Call_finally_f 1 True] \<rparr>"
  by (simp add: session_displayed_def stop_ok_def session_started_eq progress_def in_final_state_def host_ok_def emit_def)

lemma session_setup_failed_eq:
  "session_setup_failed =
     \<lparr> parent = gate1, leave_open = Undefined, tabbed_browser' = Obj 0, tab = Null,
       listener = Some 0, finally_f = Some 1, catch_f = Some 2, state = ERROR,
       browser = Undefined, error_code = None,
       trace = [AddTabsProgressListener 0 None,
                AddTab ''https://example.test'' (Inl (Exn ''NS_ERROR_MALFORMED_URI'')),
                ReportError ''Unexpected exception in Browser_Tab.show(): NS_ERROR_MALFORMED_URI'',
                Call_catch_f 2 (Exn ''NS_ERROR_MALFORMED_URI''),
                Call_finally_f 1 False],
       fresh = 1 \<rparr>"
  by (simp add: scenario_defs session_setup_failed_def go_defs)

section \<open>The terminal-state guard\<close>

lemma in_final_state_iff: "in_final_state t \<longleftrightarrow> state t = DISPLAYED \<or> state t = ERROR \<or> state t = CLOSED"
  by (cases "state t") (simp_all add: in_final_state_def)

lemma progress_final: "in_final_state t \<Longrightarrow> progress h b c r fl st t = t"
  by (simp add: progress_def)

lemma progress_cases:
  "progress h b c r fl st t = t
   \<or> (\<not> in_final_state t \<and> in_final_state (progress h b c r fl st t)
      \<and> (\<exists>es. trace (progress h b c r fl st t) = trace t @ es \<and> length es \<le> 1 \<and> (\<forall>x\<in>set es. is_finally x)))"
  by (auto simp: progress_def Let_def in_final_state_iff emit_def split: option.splits)

lemma state_close: "state (close t) = CLOSED"
  by (simp add: close_def Let_def emit_def split: option.splits)

lemma close_final: "in_final_state (close t)"
  by (simp add: in_final_state_iff state_close)

lemma trace_close:
  "trace (close t) = trace t @ (if state t = CLOSED then [] else
      (case listener t of Some l \<Rightarrow> [RemoveTabsProgressListener l] | None \<Rightarrow> [])
      @ (if truthy (tab t) \<and> \<not> truthy (leave_open t) then [RemoveTab (tab t)] else []))"
  by (auto simp: close_def Let_def emit_def split: option.splits)

lemma close_callbacks: "filter is_callback (trace (close t)) = filter is_callback (trace t)"
  by (simp add: trace_close split: option.splits)

lemma close_finally: "filter is_finally (trace (close t)) = filter is_finally (trace t)"
  by (simp add: trace_close split: option.splits)

lemma close_eq:
  "state t \<noteq> CLOSED \<Longrightarrow>
   close t = t\<lparr> tab := (if truthy (tab t) then Null else tab t),
               listener := None,
               state := CLOSED,
               trace := trace t
                 @ (case listener t of Some l \<Rightarrow> [RemoveTabsProgressListener l] | None \<Rightarrow> [])
                 @ (if truthy (tab t) \<and> \<not> truthy (leave_open t) then [RemoveTab (tab t)] else []) \<rparr>"
  by (auto simp: close_def Let_def emit_def split: option.splits)

lemma step_final:
  "in_final_state t \<Longrightarrow> in_final_state (step h x t) \<and> filter is_callback (trace (step h x t)) = filter is_callback (trace t)
     \<and> filter is_finally (trace (step h x t)) = filter is_finally (trace t)"
  by (cases x) (simp_all add: progress_final close_final close_callbacks close_finally)

lemma run_final:
  "in_final_state t \<Longrightarrow> in_final_state (run h ops t) \<and> count is_callback (run h ops t) = count is_callback t
    \<and> count is_finally (run h ops t) = count is_finally t"
proof (induction ops arbitrary: t)
  case Nil
  then show ?case by simp
next
  case (Cons x xs)
  from step_final [OF Cons.prems, of h x] Cons.IH [of "step h x t"]
  show ?case by (simp add: count_def)
qed

lemma run_progress_final:
  "in_final_state t \<Longrightarrow> \<forall>x\<in>set ops. x \<noteq> Close \<Longrightarrow> run h ops t = t"
proof (induction ops arbitrary: t)
  case Nil
  then show ?case by simp
next
  case (Cons x xs)
  then show ?case by (cases x) (simp_all add: progress_final)
qed

lemma step_closed: "state t = CLOSED \<Longrightarrow> step h x t = t"
  by (cases x) (simp_all add: progress_def close_def in_final_state_def)

lemma run_closed: "state t = CLOSED \<Longrightarrow> run h ops t = t"
  by (induction ops) (simp_all add: step_closed)

lemma step_count:
  "(\<not> in_final_state (step h x t) \<and> count is_finally (step h x t) = count is_finally t)
   \<or> (in_final_state (step h x t) \<and> count is_finally (step h x t) \<le> count is_finally t + 1)"
proof (cases x)
  case (Progress b c r fl st)
  from progress_cases [of h b c r fl st t] show ?thesis
    unfolding Progress by (auto simp: count_def)
next
  case Close
  then show ?thesis by (simp add: close_final count_def close_finally)
qed

lemma run_count: "count is_finally (run h ops t) \<le> count is_finally t + 1"
proof (induction ops arbitrary: t)
  case Nil
  then show ?case by simp
next
  case (Cons x xs)
  from step_count [of h x t] show ?case
  proof
    assume "\<not> in_final_state (step h x t) \<and> count is_finally (step h x t) = count is_finally t"
    with Cons.IH [of "step h x t"] show ?thesis by simp
  next
    assume a: "in_final_state (step h x t) \<and> count is_finally (step h x t) \<le> count is_finally t + 1"
    with run_final [of "step h x t" h xs] show ?thesis by simp
  qed
qed

lemma count_make_tab: "count p (make_tab g args) = 0"
  by (simp add: count_def make_tab_def Browser_Tab_new_def)

section \<open>Starting a load\<close>

lemma go_returns: "fst (go (load target) fin cat h t) = None"
  by (simp add: go_defs split: option.splits sum.splits)

lemma go_cases:
  "count is_finally (snd (go (load target) fin cat h t)) = count is_finally t
     \<and> state (snd (go (load target) fin cat h t)) = state t
   \<or> in_final_state (snd (go (load target) fin cat h t))
     \<and> count is_finally (snd (go (load target) fin cat h t)) \<le> count is_finally t + 1"
  by (simp add: go_defs count_def in_final_state_iff split: option.splits sum.splits)

lemma go_run_count:
  "count is_finally (run h ops (snd (go (load target) fin cat h' t))) \<le> count is_finally t + 1"
proof -
  let ?t1 = "snd (go (load target) fin cat h' t)"
  from go_cases [of target fin cat h' t] show ?thesis
  proof
    assume "count is_finally ?t1 = count is_finally t \<and> state ?t1 = state t"
    with run_count [of h ops ?t1] show ?thesis by simp
  next
    assume "in_final_state ?t1 \<and> count is_finally ?t1 \<le> count is_finally t + 1"
    with run_final [of ?t1 h ops] show ?thesis by simp
  qed
qed

lemma go_throw_listener:
  "addTabsProgressListener h (fresh t) = Some e \<Longrightarrow>
   go (load target) fin cat h t =
     (None, show_catch e (t\<lparr> finally_f := fin, catch_f := cat, listener := Some (fresh t),
        fresh := Suc (fresh t),
        trace := trace t @ [AddTabsProgressListener (fresh t) (Some e)] \<rparr>))"
  by (simp add: load_def show_tab_def show_try_def Let_def emit_def)

lemma go_throw_addTab:
  "addTabsProgressListener h (fresh t) = None \<Longrightarrow> addTab h target = Inl e \<Longrightarrow>
   go (load target) fin cat h t =
     (None, show_catch e (t\<lparr> finally_f := fin, catch_f := cat, listener := Some (fresh t),
        fresh := Suc (fresh t),
        trace := trace t @ [AddTabsProgressListener (fresh t) None, AddTab target (Inl e)] \<rparr>))"
  by (simp add: load_def show_tab_def show_try_def Let_def emit_def)

lemma go_throw_getBrowser:
  "addTabsProgressListener h (fresh t) = None \<Longrightarrow> addTab h target = Inr tb \<Longrightarrow>
   getBrowserForTab h tb = Inl e \<Longrightarrow>
   go (load target) fin cat h t =
     (None, show_catch e (t\<lparr> finally_f := fin, catch_f := cat, listener := Some (fresh t),
        fresh := Suc (fresh t), tab := tb,
        trace := trace t @ [AddTabsProgressListener (fresh t) None, AddTab target (Inr tb),
                            GetBrowserForTab tb (Inl e)] \<rparr>))"
  by (simp add: load_def show_tab_def show_try_def Let_def emit_def)

lemma go_success:
  "addTabsProgressListener h (fresh t) = None \<Longrightarrow> addTab h target = Inr tb \<Longrightarrow>
   getBrowserForTab h tb = Inr b \<Longrightarrow>
   go (load target) fin cat h t =
     (None, t\<lparr> tab := tb, listener := Some (fresh t), finally_f := fin, catch_f := cat,
        browser := b,
        trace := trace t @ [AddTabsProgressListener (fresh t) None, AddTab target (Inr tb),
                            GetBrowserForTab tb (Inr b)],
        fresh := Suc (fresh t) \<rparr>)"
  by (simp add: load_def show_tab_def show_try_def Let_def emit_def)

lemma show_catch_eq:
  "finally_f t = Some f \<Longrightarrow> catch_f t = Some c \<Longrightarrow>
   show_catch e t = t\<lparr> state := ERROR,
     trace := trace t @ [ReportError (''Unexpected exception in Browser_Tab.show(): '' @ toString e),
                         Call_catch_f c e, Call_finally_f f False] \<rparr>"
  by (simp add: show_catch_def Let_def emit_def)

lemma show_catch_fields:
  "state (show_catch e t) = ERROR" "listener (show_catch e t) = listener t"
  "tab (show_catch e t) = tab t" "leave_open (show_catch e t) = leave_open t"
  "\<exists>es. trace (show_catch e t) = trace t @ es
        \<and> (\<forall>x\<in>set es. \<not> is_removeListener x \<and> \<not> is_removeTab x \<and> (\<forall>ls. subscribe x ls = ls))"
  by (auto simp: show_catch_def Let_def emit_def split: option.splits)

lemma progress_stop:
  "\<not> in_final_state t \<Longrightarrow> browser t = b \<Longrightarrow> fl AND STATE_STOP h \<noteq> 0 \<Longrightarrow> finally_f t = Some f \<Longrightarrow>
   progress h b c r fl st t =
     (if st = 0 then t\<lparr> state := DISPLAYED, trace := trace t @ [Call_finally_f f True] \<rparr>
      else t\<lparr> state := ERROR, error_code := Some st, trace := trace t @ [Call_finally_f f False] \<rparr>)"
  by (simp add: progress_def Let_def emit_def)

section \<open>The registry of listeners\<close>

lemma subscribed_append: "subscribed (es @ es') = fold subscribe es' (subscribed es)"
  by (simp add: subscribed_def)

lemma fold_subscribe_neutral:
  "\<forall>x\<in>set es. (\<forall>ls. subscribe x ls = ls) \<Longrightarrow> fold subscribe es ls = ls"
  by (induction es arbitrary: ls) simp_all

section \<open>At most one completion callback\<close>

text \<open>
  C1. Once a session is in a terminal state (\<open>DISPLAYED\<close>, \<open>ERROR\<close> or
  \<open>CLOSED\<close>), a progress notification returns at the guard: the whole object, its trace
  included, is unchanged, so no callback is invoked; the same holds for any sequence of
  notifications, and whatever is delivered or closed afterwards adds no callback
  invocation. From any session, a run of notifications and \<open>close\<close> calls invokes
  \<open>finally_f\<close> at most once, and over the life of a session that \<open>make_tab\<close>
  created and whose load was started once, \<open>finally_f\<close> is invoked at most once.
\<close>

theorem finally_f_at_most_once:
  "(in_final_state t \<longrightarrow> progress h b c r fl st t = t)
   \<and> (in_final_state t \<and> (\<forall>x\<in>set ops. x \<noteq> Close) \<longrightarrow> run h ops t = t)
   \<and> (in_final_state t \<longrightarrow> count is_callback (run h ops t) = count is_callback t)
   \<and> count is_finally (run h ops t) \<le> count is_finally t + 1
   \<and> count is_finally (run h ops (snd (go (load target) fin cat h (make_tab g args)))) \<le> 1"
proof -
  have "count is_finally (run h ops (snd (go (load target) fin cat h (make_tab g args)))) \<le> 1"
    using go_run_count [of h ops target fin cat h "make_tab g args"]
    by (simp add: count_make_tab)
  then show ?thesis
    using run_final [of t h ops] run_count [of h ops t]
    by (simp add: progress_final run_progress_final)
qed

theorem finally_f_at_most_once_witness:
  "in_final_state session_displayed
   \<and> stop_ok \<noteq> Close
   \<and> progress host_ok (Obj 2) Null Null 0x10 0 session_displayed = session_displayed
   \<and> run host_ok [stop_ok, stop_ok] session_displayed = session_displayed
   \<and> count is_finally (run host_ok [stop_ok, stop_ok, stop_ok] session_started) = 1"
proof -
  have f: "in_final_state session_displayed"
    by (simp add: session_displayed_eq in_final_state_def)
  have n: "\<forall>x\<in>set [stop_ok, stop_ok]. x \<noteq> Close"
    by (simp add: stop_ok_def)
  have r: "run host_ok [stop_ok, stop_ok, stop_ok] session_started = run host_ok [stop_ok, stop_ok] session_displayed"
    by (simp add: session_displayed_def)
  have c: "count is_finally session_displayed = 1"
    by (simp add: count_def session_displayed_eq session_started_eq)
  have m: "stop_ok \<noteq> Close"
    by (simp add: stop_ok_def)
  from f n m r c
    finally_f_at_most_once [of session_displayed host_ok "Obj 2" Null Null "0x10" 0 "[stop_ok, stop_ok]"]
  show ?thesis by simp
qed

section \<open>Closing before the load ends\<close>

text \<open>
  C2. After \<open>close\<close> the state is \<open>CLOSED\<close> and \<open>close\<close> itself has invoked no
  callback; a stop notification for the session's own pane with the success status changes
  nothing, and neither does any run of notifications and further \<open>close\<close> calls: no
  callback is invoked and the state stays \<open>CLOSED\<close>. This holds from every state, in
  particular when no terminal notification has arrived yet.
\<close>

theorem close_suppresses_callbacks:
  "state (close t) = CLOSED
   \<and> count is_callback (close t) = count is_callback t
   \<and> progress h (browser (close t)) c r fl 0 (close t) = close t
   \<and> run h ops (close t) = close t"
  by (simp add: state_close run_closed count_def close_callbacks progress_final close_final)

theorem close_suppresses_callbacks_witness:
  "state session_started = CREATED
   \<and> state (close session_started) = CLOSED
   \<and> count is_callback (close session_started) = 0
   \<and> progress host_ok (Obj 2) Null Null 0x10 0 (close session_started) = close session_started
   \<and> run host_ok [stop_ok, stop_fail, Close, stop_ok] (close session_started) = close session_started"
proof -
  have a: "browser (close session_started) = Obj 2"
    using close_eq [of session_started] by (simp add: session_started_eq)
  have b: "state session_started = CREATED" "count is_callback session_started = 0"
    by (simp_all add: session_started_eq count_def)
  from close_suppresses_callbacks [of session_started host_ok Null Null "0x10" "[stop_ok, stop_fail, Close, stop_ok]"]
  show ?thesis
    by (simp add: a b)
qed

section \<open>The default of leave\_open\<close>

text \<open>
  C3. The constructor gives \<open>leave_open\<close> the default \<open>true\<close> when it is called
  with \<open>parent\<close> alone, but \<open>make_tab\<close> passes its parameter on as a second argument
  even when it was called without one, so through \<open>make_tab\<close> the default is never
  reached. Evaluated on the gate of capacity 1: \<open>make_tab\<close> without an argument gives a
  session whose \<open>leave_open\<close> is \<open>undefined\<close>, and after a load that the host started
  without an exception, \<open>close\<close> calls \<open>removeTab\<close> on tab 1; the constructor called
  with \<open>parent\<close> alone gives \<open>true\<close>, and the same load and \<open>close\<close> call
  \<open>removeTab\<close> not at all.
\<close>

theorem make_tab_no_argument_removes_tab:
  "leave_open (make_tab gate1 []) = Undefined
   \<and> \<not> truthy (leave_open (make_tab gate1 []))
   \<and> trace (close (snd (go (load ''https://example.test'') (Some 1) (Some 2) host_ok (make_tab gate1 [])))) =
       [AddTabsProgressListener 0 None, AddTab ''https://example.test'' (Inr (Obj 1)),
        GetBrowserForTab (Obj 1) (Inr (Obj 2)), RemoveTabsProgressListener 0, RemoveTab (Obj 1)]
   \<and> count is_removeTab (close (snd (go (load ''https://example.test'') (Some 1) (Some 2) host_ok (make_tab gate1 [])))) = 1
   \<and> leave_open (Browser_Tab_new gate1 []) = Bool True
   \<and> trace (close (snd (go (load ''https://example.test'') (Some 1) (Some 2) host_ok (Browser_Tab_new gate1 [])))) =
       [AddTabsProgressListener 0 None, AddTab ''https://example.test'' (Inr (Obj 1)),
        GetBrowserForTab (Obj 1) (Inr (Obj 2)), RemoveTabsProgressListener 0]"
  by (simp add: scenario_defs go_defs close_def count_def)

section \<open>An exception during setup\<close>

text \<open>
  C4. When one of the three host calls of the \<open>try\<close> block throws \<open>e\<close> (in the
  example, \<open>addTab\<close> after the listener was added), with both callbacks given, the
  \<open>go\<close> of the action returns without an exception, the state is \<open>ERROR\<close>, and after
  the host calls made up to the throw the trace continues with exactly one
  \<open>Cu.reportError\<close>, then \<open>catch_f\<close> with \<open>e\<close>, then \<open>finally_f\<close> with
  \<open>false\<close>.
\<close>

theorem setup_failure:
  assumes "addTabsProgressListener h (fresh t) = Some e
             \<and> calls = [AddTabsProgressListener (fresh t) (Some e)]
           \<or> addTabsProgressListener h (fresh t) = None \<and> addTab h target = Inl e
             \<and> calls = [AddTabsProgressListener (fresh t) None, AddTab target (Inl e)]
           \<or> addTabsProgressListener h (fresh t) = None \<and> addTab h target = Inr tb
             \<and> getBrowserForTab h tb = Inl e
             \<and> calls = [AddTabsProgressListener (fresh t) None, AddTab target (Inr tb),
                        GetBrowserForTab tb (Inl e)]"
  shows "fst (go (load target) (Some f) (Some c) h t) = None
         \<and> state (snd (go (load target) (Some f) (Some c) h t)) = ERROR
         \<and> trace (snd (go (load target) (Some f) (Some c) h t)) =
             trace t @ calls
               @ [ReportError (''Unexpected exception in Browser_Tab.show(): '' @ toString e),
                  Call_catch_f c e, Call_finally_f f False]"
  using assms
  by (auto simp: go_throw_listener go_throw_addTab go_throw_getBrowser show_catch_eq)

theorem setup_failure_witness:
  "addTabsProgressListener host_addTab_throws (fresh (make_tab gate1 [])) = None
   \<and> addTab host_addTab_throws ''https://example.test'' = Inl (Exn ''NS_ERROR_MALFORMED_URI'')
   \<and> fst (go (load ''https://example.test'') (Some 1) (Some 2) host_addTab_throws (make_tab gate1 [])) = None
   \<and> state session_setup_failed = ERROR
   \<and> trace session_setup_failed =
       [AddTabsProgressListener 0 None,
        AddTab ''https://example.test'' (Inl (Exn ''NS_ERROR_MALFORMED_URI'')),
        ReportError ''Unexpected exception in Browser_Tab.show(): NS_ERROR_MALFORMED_URI'',
        Call_catch_f 2 (Exn ''NS_ERROR_MALFORMED_URI''),
        Call_finally_f 1 False]"
proof -
  have a: "addTabsProgressListener host_addTab_throws (fresh (make_tab gate1 [])) = None"
    by (simp add: host_addTab_throws_def)
  have b: "addTab host_addTab_throws ''https://example.test'' = Inl (Exn ''NS_ERROR_MALFORMED_URI'')"
    by (simp add: host_addTab_throws_def)
  have c: "fresh (make_tab gate1 []) = 0" "trace (make_tab gate1 []) = []"
    by (simp_all add: make_tab_def Browser_Tab_new_def)
  from a b
    setup_failure [of host_addTab_throws "make_tab gate1 []" "Exn ''NS_ERROR_MALFORMED_URI''"
      "[AddTabsProgressListener 0 None, AddTab ''https://example.test'' (Inl (Exn ''NS_ERROR_MALFORMED_URI''))]"
      "''https://example.test''" Null 1 2]
  show ?thesis
    by (simp add: c session_setup_failed_def)
qed

text \<open>
  C10. When \<open>addTabsProgressListener\<close> has returned and \<open>addTab\<close> or
  \<open>getBrowserForTab\<close> then throws, the error branch releases nothing: the state is
  \<open>ERROR\<close>, \<open>listener\<close> still holds the listener object, \<open>go\<close> has called neither
  \<open>removeTabsProgressListener\<close> nor \<open>removeTab\<close>, and the listener is still
  registered with the host. A \<open>close\<close> afterwards calls
  \<open>removeTabsProgressListener\<close> with that listener, sets \<open>listener\<close> to \<open>null\<close>,
  and the listener is no longer registered.
\<close>

theorem setup_failure_keeps_listener:
  assumes "addTabsProgressListener h (fresh t) = None"
    and "addTab h target = Inl e \<or> addTab h target = Inr tb \<and> getBrowserForTab h tb = Inl e"
  shows "let t1 = snd (go (load target) fin cat h t)
         in state t1 = ERROR
            \<and> listener t1 = Some (fresh t)
            \<and> filter is_removeListener (trace t1) = filter is_removeListener (trace t)
            \<and> filter is_removeTab (trace t1) = filter is_removeTab (trace t)
            \<and> fresh t \<in> set (subscribed (trace t1))
            \<and> listener (close t1) = None
            \<and> trace (close t1) =
                 trace t1 @ [RemoveTabsProgressListener (fresh t)]
                   @ (if truthy (tab t1) \<and> \<not> truthy (leave_open t) then [RemoveTab (tab t1)] else [])
            \<and> fresh t \<notin> set (subscribed (trace (close t1)))"
proof -
  let ?t1 = "snd (go (load target) fin cat h t)"
  obtain t0 calls where t1: "?t1 = show_catch e t0" and t0: "listener t0 = Some (fresh t)"
      "leave_open t0 = leave_open t"
      "trace t0 = trace t @ AddTabsProgressListener (fresh t) None # calls"
      "\<forall>x\<in>set calls. \<not> is_removeListener x \<and> \<not> is_removeTab x \<and> (\<forall>ls. subscribe x ls = ls)"
  proof -
    from assms(2) show ?thesis
    proof
      assume a: "addTab h target = Inl e"
      show ?thesis
        by (rule that [of "t\<lparr> finally_f := fin, catch_f := cat, listener := Some (fresh t),
                fresh := Suc (fresh t),
                trace := trace t @ [AddTabsProgressListener (fresh t) None, AddTab target (Inl e)] \<rparr>"
              "[AddTab target (Inl e)]"])
          (simp_all add: go_throw_addTab assms(1) a)
    next
      assume a: "addTab h target = Inr tb \<and> getBrowserForTab h tb = Inl e"
      show ?thesis
        by (rule that [of "t\<lparr> finally_f := fin, catch_f := cat, listener := Some (fresh t),
                fresh := Suc (fresh t), tab := tb,
                trace := trace t @ [AddTabsProgressListener (fresh t) None, AddTab target (Inr tb),
                                    GetBrowserForTab tb (Inl e)] \<rparr>"
              "[AddTab target (Inr tb), GetBrowserForTab tb (Inl e)]"])
          (simp_all add: go_throw_getBrowser assms(1) a)
    qed
  qed
  from show_catch_fields(5) [of e t0] obtain es where es: "trace ?t1 = trace t0 @ es"
      "\<forall>x\<in>set es. \<not> is_removeListener x \<and> \<not> is_removeTab x \<and> (\<forall>ls. subscribe x ls = ls)"
    unfolding t1 by blast
  have st: "state ?t1 = ERROR" and li: "listener ?t1 = Some (fresh t)" and lo: "leave_open ?t1 = leave_open t"
    by (simp_all add: t1 show_catch_fields t0)
  have tr: "trace ?t1 = trace t @ AddTabsProgressListener (fresh t) None # (calls @ es)"
    by (simp add: es t0)
  have ne: "\<forall>x\<in>set (calls @ es). \<not> is_removeListener x \<and> \<not> is_removeTab x \<and> (\<forall>ls. subscribe x ls = ls)"
    using es(2) t0(4) by auto
  have f1: "filter is_removeListener (trace ?t1) = filter is_removeListener (trace t)"
    and f2: "filter is_removeTab (trace ?t1) = filter is_removeTab (trace t)"
    using ne by (simp_all add: tr)
  have sub: "subscribed (trace ?t1) = fresh t # subscribed (trace t)"
    using fold_subscribe_neutral [of "calls @ es" "fresh t # subscribed (trace t)"] ne
    by (simp add: tr subscribed_append del: fold_append)
  have cl: "trace (close ?t1) = trace ?t1 @ [RemoveTabsProgressListener (fresh t)]
       @ (if truthy (tab ?t1) \<and> \<not> truthy (leave_open t) then [RemoveTab (tab ?t1)] else [])"
    by (simp add: trace_close st li lo)
  have "listener (close ?t1) = None"
    using close_eq [of ?t1] st by simp
  moreover have "fresh t \<notin> set (subscribed (trace (close ?t1)))"
    by (simp add: cl subscribed_append)
  ultimately show ?thesis
    using st li f1 f2 sub cl by (simp add: Let_def)
qed

theorem setup_failure_keeps_listener_witness:
  "addTabsProgressListener host_addTab_throws (fresh (make_tab gate1 [])) = None
   \<and> addTab host_addTab_throws ''https://example.test'' = Inl (Exn ''NS_ERROR_MALFORMED_URI'')
   \<and> state session_setup_failed = ERROR
   \<and> listener session_setup_failed = Some 0
   \<and> filter is_removeListener (trace session_setup_failed) = []
   \<and> 0 \<in> set (subscribed (trace session_setup_failed))
   \<and> listener (close session_setup_failed) = None
   \<and> trace (close session_setup_failed) = trace session_setup_failed @ [RemoveTabsProgressListener 0]
   \<and> 0 \<notin> set (subscribed (trace (close session_setup_failed)))"
proof -
  have a: "addTabsProgressListener host_addTab_throws (fresh (make_tab gate1 [])) = None"
    by (simp add: host_addTab_throws_def)
  have b: "addTab host_addTab_throws ''https://example.test'' = Inl (Exn ''NS_ERROR_MALFORMED_URI'')"
    by (simp add: host_addTab_throws_def)
  have c: "fresh (make_tab gate1 []) = 0" "trace (make_tab gate1 []) = []"
    by (simp_all add: make_tab_def Browser_Tab_new_def)
  have d: "tab session_setup_failed = Null"
    by (simp add: session_setup_failed_eq)
  from a b
    setup_failure_keeps_listener [of host_addTab_throws "make_tab gate1 []" "''https://example.test''"
      "Exn ''NS_ERROR_MALFORMED_URI''" Null "Some 1" "Some 2"]
  show ?thesis
    using d [unfolded session_setup_failed_def] by (auto simp: c Let_def session_setup_failed_def)
qed

section \<open>Stop notifications\<close>

text \<open>
  C5. On a session that is not in a terminal state, a load that the host started without
  an exception leaves \<open>browser\<close> at the pane the host returned and invokes no callback;
  a notification for that pane with the stop flag and status 0 then sets the state to
  \<open>DISPLAYED\<close> and invokes \<open>finally_f\<close> with \<open>true\<close>, and that is the only
  invocation of \<open>finally_f\<close>, whatever is delivered or closed afterwards.
\<close>

theorem success_stop:
  assumes "\<not> in_final_state t"
    and "addTabsProgressListener h (fresh t) = None"
    and "addTab h target = Inr tb"
    and "getBrowserForTab h tb = Inr b"
    and "fl AND STATE_STOP h \<noteq> 0"
  shows "let t1 = snd (go (load target) (Some f) cat h t);
             t2 = progress h b c r fl 0 t1
         in fst (go (load target) (Some f) cat h t) = None
            \<and> browser t1 = b
            \<and> state t2 = DISPLAYED
            \<and> trace t2 = trace t1 @ [Call_finally_f f True]
            \<and> count is_finally t1 = count is_finally t
            \<and> count is_finally (run h ops t2) = count is_finally t + 1"
proof -
  let ?t1 = "snd (go (load target) (Some f) cat h t)"
  let ?t2 = "progress h b c r fl 0 ?t1"
  have t1: "\<not> in_final_state ?t1" "browser ?t1 = b" "finally_f ?t1 = Some f"
    "count is_finally ?t1 = count is_finally t"
    using assms by (simp_all add: go_success in_final_state_def count_def)
  have t2: "?t2 = ?t1\<lparr> state := DISPLAYED, trace := trace ?t1 @ [Call_finally_f f True] \<rparr>"
    using t1 assms(5) by (simp add: progress_stop)
  have "in_final_state ?t2"
    by (simp add: t2 in_final_state_def)
  from run_final [OF this, of h ops] have "count is_finally (run h ops ?t2) = count is_finally ?t2"
    by simp
  moreover have "count is_finally ?t2 = count is_finally t + 1"
    using t1(4) by (simp add: t2 count_def)
  ultimately show ?thesis
    using t1 by (simp add: Let_def go_returns t2)
qed

theorem success_stop_witness:
  "\<not> in_final_state (make_tab gate1 [])
   \<and> addTabsProgressListener host_ok (fresh (make_tab gate1 [])) = None
   \<and> addTab host_ok ''https://example.test'' = Inr (Obj 1)
   \<and> getBrowserForTab host_ok (Obj 1) = Inr (Obj 2)
   \<and> (0x10 :: 32 word) AND STATE_STOP host_ok \<noteq> 0
   \<and> state session_displayed = DISPLAYED
   \<and> trace session_displayed = trace session_started @ [Call_finally_f 1 True]
   \<and> count is_finally (run host_ok [stop_ok, Close] session_displayed) = 1"
proof -
  have a: "\<not> in_final_state (make_tab gate1 [])"
    by (simp add: make_tab_def Browser_Tab_new_def in_final_state_def)
  have b: "addTabsProgressListener host_ok (fresh (make_tab gate1 [])) = None"
    "addTab host_ok ''https://example.test'' = Inr (Obj 1)"
    "getBrowserForTab host_ok (Obj 1) = Inr (Obj 2)"
    "(0x10 :: 32 word) AND STATE_STOP host_ok \<noteq> 0"
    by (simp_all add: host_ok_def)
  have c: "count is_finally (make_tab gate1 []) = 0"
    by (rule count_make_tab)
  from success_stop [OF a b, of 1 "Some 2" Null Null "[stop_ok, Close]"] a b c
  show ?thesis
    by (simp add: Let_def session_displayed_def session_started_def stop_ok_def)
qed

text \<open>
  C6. The same with a status other than 0 (in the example \<open>0x804B0002\<close>): the state
  becomes \<open>ERROR\<close>, \<open>error_code\<close> holds the status, and \<open>finally_f\<close> is invoked
  with \<open>false\<close>, exactly once over all that follows.
\<close>

theorem failure_stop:
  assumes "\<not> in_final_state t"
    and "addTabsProgressListener h (fresh t) = None"
    and "addTab h target = Inr tb"
    and "getBrowserForTab h tb = Inr b"
    and "fl AND STATE_STOP h \<noteq> 0"
    and "st \<noteq> 0"
  shows "let t1 = snd (go (load target) (Some f) cat h t);
             t2 = progress h b c r fl st t1
         in state t2 = ERROR
            \<and> error_code t2 = Some st
            \<and> trace t2 = trace t1 @ [Call_finally_f f False]
            \<and> count is_finally t1 = count is_finally t
            \<and> count is_finally (run h ops t2) = count is_finally t + 1"
proof -
  let ?t1 = "snd (go (load target) (Some f) cat h t)"
  let ?t2 = "progress h b c r fl st ?t1"
  have t1: "\<not> in_final_state ?t1" "browser ?t1 = b" "finally_f ?t1 = Some f"
    "count is_finally ?t1 = count is_finally t"
    using assms by (simp_all add: go_success in_final_state_def count_def)
  have t2: "?t2 = ?t1\<lparr> state := ERROR, error_code := Some st, trace := trace ?t1 @ [Call_finally_f f False] \<rparr>"
    using t1 assms(5,6) by (simp add: progress_stop)
  have "in_final_state ?t2"
    by (simp add: t2 in_final_state_def)
  from run_final [OF this, of h ops] have "count is_finally (run h ops ?t2) = count is_finally ?t2"
    by simp
  moreover have "count is_finally ?t2 = count is_finally t + 1"
    using t1(4) by (simp add: t2 count_def)
  ultimately show ?thesis
    using t1 by (simp add: Let_def t2)
qed

theorem failure_stop_witness:
  "\<not> in_final_state (make_tab gate1 [])
   \<and> addTabsProgressListener host_ok (fresh (make_tab gate1 [])) = None
   \<and> addTab host_ok ''https://example.test'' = Inr (Obj 1)
   \<and> getBrowserForTab host_ok (Obj 1) = Inr (Obj 2)
   \<and> (0x10 :: 32 word) AND STATE_STOP host_ok \<noteq> 0
   \<and> (0x804B0002 :: 32 word) \<noteq> 0
   \<and> state (step host_ok stop_fail session_started) = ERROR
   \<and> error_code (step host_ok stop_fail session_started) = Some 0x804B0002
   \<and> trace (step host_ok stop_fail session_started) = trace session_started @ [Call_finally_f 1 False]
   \<and> count is_finally (run host_ok [stop_fail, stop_ok] (step host_ok stop_fail session_started)) = 1"
proof -
  have a: "\<not> in_final_state (make_tab gate1 [])"
    by (simp add: make_tab_def Browser_Tab_new_def in_final_state_def)
  have b: "addTabsProgressListener host_ok (fresh (make_tab gate1 [])) = None"
    "addTab host_ok ''https://example.test'' = Inr (Obj 1)"
    "getBrowserForTab host_ok (Obj 1) = Inr (Obj 2)"
    "(0x10 :: 32 word) AND STATE_STOP host_ok \<noteq> 0"
    by (simp_all add: host_ok_def)
  have n: "(0x804B0002 :: 32 word) \<noteq> 0"
    by simp
  have c: "count is_finally (make_tab gate1 []) = 0"
    by (rule count_make_tab)
  from failure_stop [OF a b n, of 1 "Some 2" Null Null "[stop_fail, stop_ok]"] a b n c
  show ?thesis
    by (simp add: Let_def session_started_def stop_fail_def)
qed

text \<open>
  C7. A notification for another pane than \<open>browser\<close>, or one whose flags lack the
  stop bit, leaves the whole object unchanged, its trace included: no field changes and
  no callback is invoked.
\<close>

theorem foreign_or_non_stop_ignored:
  "browser t \<noteq> b \<or> fl AND STATE_STOP h = 0 \<Longrightarrow> progress h b c r fl st t = t"
  by (auto simp: progress_def)

theorem foreign_or_non_stop_ignored_witness:
  "browser session_started \<noteq> Obj 3
   \<and> progress host_ok (Obj 3) Null Null 0x10 0x804B0002 session_started = session_started
   \<and> (0x01 :: 32 word) AND STATE_STOP host_ok = 0
   \<and> progress host_ok (Obj 2) Null Null 0x01 0 session_started = session_started"
proof -
  have a: "browser session_started \<noteq> Obj 3"
    by (simp add: session_started_eq)
  have b: "(0x01 :: 32 word) AND STATE_STOP host_ok = 0"
    by (simp add: host_ok_def)
  from a b
    foreign_or_non_stop_ignored [of session_started "Obj 3" "0x10" host_ok Null Null "0x804B0002"]
    foreign_or_non_stop_ignored [of session_started "Obj 2" "0x01" host_ok Null Null 0]
  show ?thesis by simp
qed

section \<open>close\<close>

text \<open>
  C8. \<open>close\<close> always ends in state \<open>CLOSED\<close>. On a session that is not
  \<open>CLOSED\<close> it calls \<open>removeTabsProgressListener\<close> if \<open>listener\<close> is set, then
  \<open>removeTab\<close> if \<open>tab\<close> is set and \<open>leave_open\<close> is not, clears both fields and
  changes nothing else; on a \<open>CLOSED\<close> session it changes nothing. So a second
  \<open>close\<close> is the identity: no second call to the host.
\<close>

theorem close_idempotent:
  "close (close t) = close t
   \<and> state (close t) = CLOSED
   \<and> (state t = CLOSED \<longrightarrow> close t = t)
   \<and> (state t \<noteq> CLOSED \<longrightarrow>
        close t = t\<lparr> tab := (if truthy (tab t) then Null else tab t),
                    listener := None,
                    state := CLOSED,
                    trace := trace t
                      @ (case listener t of Some l \<Rightarrow> [RemoveTabsProgressListener l] | None \<Rightarrow> [])
                      @ (if truthy (tab t) \<and> \<not> truthy (leave_open t) then [RemoveTab (tab t)] else []) \<rparr>)"
proof -
  have "close (close t) = close t"
    using state_close [of t] by (simp add: close_def [of "close t"])
  moreover have "state t = CLOSED \<longrightarrow> close t = t"
    by (simp add: close_def)
  ultimately show ?thesis
    using close_eq [of t] by (simp add: state_close)
qed

theorem close_idempotent_witness:
  "state session_started \<noteq> CLOSED
   \<and> close session_started =
       session_started\<lparr> tab := Null, listener := None, state := CLOSED,
         trace := trace session_started @ [RemoveTabsProgressListener 0, RemoveTab (Obj 1)] \<rparr>
   \<and> state (close session_started) = CLOSED
   \<and> close (close session_started) = close session_started"
proof -
  have a: "state session_started \<noteq> CLOSED"
    by (simp add: session_started_eq)
  from a close_idempotent [of session_started] close_idempotent [of "close session_started"]
  show ?thesis by (simp add: session_started_eq)
qed

end
